theory Spec2Isabelle
  imports Complex_Main "HOL-Library.Word" "HOL-Library.Multiset"
begin

section \<open>Values of the JavaScript runtime\<close>

text \<open>
  A JavaScript string is a sequence of 16-bit code units. The request body is parsed JSON
  whose fields are untyped at run time (\<^verbatim>\<open>req.body\<close> is \<^verbatim>\<open>any\<close>), so a field is a
  \<open>jsval\<close>; a field that is missing from the body reads as \<open>JUndefined\<close>. A number
  in the body is a \<open>JNum\<close>; the handlers only test it for being zero.
\<close>

type_synonym jsstring = "16 word list"

datatype jsval =
    JUndefined
  | JNull
  | JBool bool
  | JNum real
  | JStr jsstring
  | JArr "jsval list"
  | JObj "(jsstring \<times> jsval) list"

datatype js_error = TypeError

text \<open>\<^verbatim>\<open>!v\<close> is true exactly for the falsy values.\<close>

fun truthy :: "jsval \<Rightarrow> bool" where
  "truthy JUndefined = False"
| "truthy JNull = False"
| "truthy (JBool b) = b"
| "truthy (JNum x) = (x \<noteq> 0)"
| "truthy (JStr s) = (s \<noteq> [])"
| "truthy (JArr _) = True"
| "truthy (JObj _) = True"

text \<open>
  \<^verbatim>\<open>String.prototype.trim\<close> removes the code units that ECMAScript calls WhiteSpace or
  LineTerminator from both ends of the string.
\<close>

definition is_white_space :: "16 word \<Rightarrow> bool" where
  "is_white_space c \<longleftrightarrow>
     c \<in> {0x9, 0xA, 0xB, 0xC, 0xD, 0x20, 0xA0, 0x1680, 0x2028, 0x2029, 0x202F, 0x205F,
          0x3000, 0xFEFF}
     \<or> (0x2000 \<le> c \<and> c \<le> 0x200A)"

definition trim :: "jsstring \<Rightarrow> jsstring" where
  "trim s = rev (dropWhile is_white_space (rev (dropWhile is_white_space s)))"

text \<open>The decimal rendering of an integer, as a template literal interpolates it.\<close>

definition digit_char :: "nat \<Rightarrow> char" where
  "digit_char d = char_of (48 + d)"

function decimal :: "nat \<Rightarrow> string" where
  "decimal n = (if n < 10 then [digit_char n] else decimal (n div 10) @ [digit_char (n mod 10)])"
  by pat_completeness auto
termination
  by (relation "measure id") auto

declare decimal.simps [simp del]

definition show_int :: "int \<Rightarrow> string" where
  "show_int k = (if k < 0 then CHR ''-'' # decimal (nat (- k)) else decimal (nat k))"

section \<open>Arithmetic on doubles\<close>

text \<open>
  A JavaScript number is an IEEE 754 binary64 value: 53 significant bits, and every
  operation rounds its exact result to the nearest such value, a tie going to the even
  significand. Two operations of the source compute with numbers: the product
  \<^verbatim>\<open>Math.random() * 10\<close> and the sum \<^verbatim>\<open>user.points += randomPoints\<close>.

  \<open>excess_bits n\<close> is the number of bits by which \<open>n\<close> exceeds 53 bits, and
  \<open>round_even n s\<close> is \<open>n / 2 ^ s\<close> rounded to the nearest integer, ties to even.
\<close>

function excess_bits :: "nat \<Rightarrow> nat" where
  "excess_bits n = (if n < 2 ^ 53 then 0 else Suc (excess_bits (n div 2)))"
  by pat_completeness auto
termination
  by (relation "measure id") auto

declare excess_bits.simps [simp del]

definition round_even :: "nat \<Rightarrow> nat \<Rightarrow> nat" where
  "round_even n s =
     (let q = n div 2 ^ s; r = n mod 2 ^ s
      in if 2 ^ s < 2 * r \<or> (2 * r = 2 ^ s \<and> odd q) then q + 1 else q)"

text \<open>
  The double nearest to an integer, and the sum of two doubles that hold integers. (Sums
  of magnitude \<open>2 ^ 1024\<close> and more, which overflow to \<^verbatim>\<open>Infinity\<close>, are not modelled.)
\<close>

definition round_nat :: "nat \<Rightarrow> nat" where
  "round_nat n = (let s = excess_bits n in round_even n s * 2 ^ s)"

definition round_int :: "int \<Rightarrow> int" where
  "round_int k = (if k < 0 then - int (round_nat (nat (- k))) else int (round_nat (nat k)))"

definition js_add :: "int \<Rightarrow> int \<Rightarrow> int" where
  "js_add a b = round_int (a + b)"

text \<open>
  A double is given by its 64 bits: the sign, 11 bits of biased exponent and 52 bits of
  fraction. A finite double without sign has the value
  \<open>significand w * 2 ^ exponent w\<close>; a biased exponent of 0 marks the subnormal numbers.
\<close>

definition biased_exponent :: "64 word \<Rightarrow> nat" where
  "biased_exponent w = (unat w div 2 ^ 52) mod 2 ^ 11"

definition fraction :: "64 word \<Rightarrow> nat" where
  "fraction w = unat w mod 2 ^ 52"

definition significand :: "64 word \<Rightarrow> nat" where
  "significand w = (if biased_exponent w = 0 then fraction w else 2 ^ 52 + fraction w)"

definition exponent :: "64 word \<Rightarrow> int" where
  "exponent w = (if biased_exponent w = 0 then - 1074 else int (biased_exponent w) - 1075)"

text \<open>
  The product of a finite double without sign and 10, as the pair \<open>(m, k)\<close> of the
  double \<open>m * 2 ^ k\<close>: the exact product \<open>(10 * significand w) * 2 ^ exponent w\<close> is
  rounded to 53 bits. \<^verbatim>\<open>Math.floor\<close> of such a double is exact.
\<close>

definition times_ten :: "64 word \<Rightarrow> nat \<times> int" where
  "times_ten w =
     (let n = 10 * significand w; s = excess_bits n
      in (round_even n s, exponent w + int s))"

fun floor_double :: "nat \<times> int \<Rightarrow> int" where
  "floor_double (m, k) = (if 0 \<le> k then int m * 2 ^ nat k else int m div 2 ^ nat (- k))"

section \<open>The two collections\<close>

text \<open>
  An ObjectId is a 96-bit value. A collection is the list of its documents in insertion
  order. The \<^verbatim>\<open>points\<close> of a document are a double that holds an integer (0 at first,
  then sums of awards); the model keeps that integer, and the handler's sum rounds it as
  the double addition does (\<open>js_add\<close>).
\<close>

type_synonym oid = nat

record user =
  uid :: oid
  name :: jsstring
  points :: int

record history =
  hid :: oid
  huserId :: oid
  hpoints :: int
  htimestamp :: int

record db =
  users :: "user list"
  histories :: "history list"

definition find_user :: "user list \<Rightarrow> oid \<Rightarrow> user option" where
  "find_user us i = find (\<lambda>u. uid u = i) us"

text \<open>An update by \<^verbatim>\<open>_id\<close> changes the one document that has it.\<close>

fun update_user :: "oid \<Rightarrow> (user \<Rightarrow> user) \<Rightarrow> user list \<Rightarrow> user list" where
  "update_user i f [] = []"
| "update_user i f (u # us) = (if uid u = i then f u # us else u # update_user i f us)"

section \<open>The environment of a request\<close>

text \<open>
  What a handler reads from outside the program is a parameter of its run: the double that
  \<^verbatim>\<open>Math.random()\<close> returns, as its 64 bits (a number from 0 up to, but not including,
  1: the bits of 1 are \<open>0x3FF0000000000000\<close>, and doubles without sign are ordered as
  their bits are), the clock read by \<^verbatim>\<open>Date.now\<close>, the ObjectId that the driver generates for a new document, the cast
  of a request value to an ObjectId that Mongoose applies in \<^verbatim>\<open>findById\<close> (\<open>None\<close>
  is its CastError), and the storage operations that fail with an infrastructure error
  during this request.
\<close>

datatype storage_op = OpFind | OpSaveUser | OpSaveHistory | OpCommit

record env =
  rnd :: "64 word"
  now :: int
  new_id :: oid
  castObjectId :: "jsval \<Rightarrow> oid option"
  fails :: "storage_op set"

text \<open>
  A history document as \<^verbatim>\<open>populate('userId', 'name')\<close> returns it: the reference is
  replaced by the \<^verbatim>\<open>_id\<close> and \<^verbatim>\<open>name\<close> of the user document it points to, or by
  \<^verbatim>\<open>null\<close> when there is none.
\<close>

record history_view =
  hv_id :: oid
  hv_user :: "(oid \<times> jsstring) option"
  hv_points :: int
  hv_timestamp :: int

datatype body =
    Text string
  | UserDoc user
  | ClaimOk user string
  | UserList "user list"
  | HistoryList "history_view list"

record response =
  status :: nat
  body :: body

section \<open>Sessions and transactions\<close>

text \<open>
  A session records the state of its transaction and whether \<^verbatim>\<open>endSession\<close> was called
  on it. Starting and ending a session complete. The driver lets a transaction be aborted
  only while it is in progress: \<^verbatim>\<open>abortTransaction\<close> raises on a session whose
  transaction was aborted before, or on which \<^verbatim>\<open>commitTransaction\<close> was called, whether
  that commit went through or not.
\<close>

datatype txn_state = NoTransaction | InProgress | Committed | Aborted

record session =
  txn :: txn_state
  ended :: bool

definition startSession :: session where
  "startSession = \<lparr>txn = NoTransaction, ended = False\<rparr>"

definition startTransaction :: "session \<Rightarrow> session" where
  "startTransaction s = s\<lparr>txn := InProgress\<rparr>"

definition endSession :: "session \<Rightarrow> session" where
  "endSession s = s\<lparr>ended := True\<rparr>"

text \<open>A call either raises (the \<^verbatim>\<open>await\<close> throws) or completes with a value.\<close>

datatype 'a attempt = Raised | Done 'a

definition abortTransaction :: "session \<Rightarrow> session attempt" where
  "abortTransaction s = (if txn s = InProgress then Done (s\<lparr>txn := Aborted\<rparr>) else Raised)"

section \<open>POST /add-user\<close>

text \<open>
  Saving a new document inserts it at the end of its collection. The insert fails on a
  storage fault and when the \<^verbatim>\<open>_id\<close> is already taken (the collection's unique index).
  The stored name is kept as the handler's string; that the driver writes it as UTF-8, which
  turns an unpaired surrogate into U+FFFD, is not modelled.
\<close>

definition insert_user :: "env \<Rightarrow> db \<Rightarrow> user \<Rightarrow> db attempt" where
  "insert_user e d u =
     (if OpSaveUser \<in> fails e \<or> uid u \<in> uid ` set (users d) then Raised
      else Done (d\<lparr>users := users d @ [u]\<rparr>))"

text \<open>
  \<^verbatim>\<open>name.trim()\<close> is evaluated before the \<^verbatim>\<open>try\<close>: on anything but a string it raises
  a TypeError (\<^verbatim>\<open>undefined\<close> and \<^verbatim>\<open>null\<close> have no properties, the other values have
  no callable \<^verbatim>\<open>trim\<close>), and the handler's promise rejects without a response.
\<close>

definition add_user :: "env \<Rightarrow> db \<Rightarrow> jsval \<Rightarrow> js_error + (db \<times> response)" where
  "add_user e d nm =
     (case nm of
        JStr s \<Rightarrow>
          if trim s = [] then Inr (d, \<lparr>status = 400, body = Text ''Name is required''\<rparr>)
          else
            (let newUser = \<lparr>uid = new_id e, name = trim s, points = 0\<rparr> in
             case insert_user e d newUser of
               Done d' \<Rightarrow> Inr (d', \<lparr>status = 201, body = UserDoc newUser\<rparr>)
             | Raised \<Rightarrow> Inr (d, \<lparr>status = 500, body = Text ''Error adding user''\<rparr>))
      | _ \<Rightarrow> Inl TypeError)"

section \<open>POST /claim-points\<close>

text \<open>
  \<^verbatim>\<open>User.findById(userId).session(session)\<close>: the value is cast to an ObjectId and looked
  up in the transaction's view of the collection; the result is the document or
  \<^verbatim>\<open>null\<close>.
\<close>

definition findById :: "env \<Rightarrow> db \<Rightarrow> jsval \<Rightarrow> user option attempt" where
  "findById e d v =
     (if OpFind \<in> fails e then Raised
      else case castObjectId e v of
             None \<Rightarrow> Raised
           | Some i \<Rightarrow> Done (find_user (users d) i))"

text \<open>\<^verbatim>\<open>user.save({ session })\<close> on a loaded document sets the modified path \<^verbatim>\<open>points\<close>.\<close>

definition save_user :: "env \<Rightarrow> db \<Rightarrow> user \<Rightarrow> db attempt" where
  "save_user e d u =
     (if OpSaveUser \<in> fails e then Raised
      else Done (d\<lparr>users := update_user (uid u) (\<lambda>v. v\<lparr>points := points u\<rparr>) (users d)\<rparr>))"

text \<open>
  \<^verbatim>\<open>new History({ userId, points: randomPoints })\<close> followed by \<^verbatim>\<open>save({ session })\<close>:
  the schema casts \<^verbatim>\<open>userId\<close> to an ObjectId and takes the timestamp from the clock.
\<close>

definition save_history :: "env \<Rightarrow> db \<Rightarrow> jsval \<Rightarrow> int \<Rightarrow> db attempt" where
  "save_history e d v p =
     (case castObjectId e v of
        None \<Rightarrow> Raised
      | Some i \<Rightarrow>
          if OpSaveHistory \<in> fails e \<or> new_id e \<in> hid ` set (histories d) then Raised
          else Done (d\<lparr>histories := histories d @
                 [\<lparr>hid = new_id e, huserId = i, hpoints = p, htimestamp = now e\<rparr>]\<rparr>))"

text \<open>
  \<^verbatim>\<open>session.commitTransaction()\<close> leaves the session's transaction marked as committed,
  also when the commit fails and the call raises (\<open>Inl\<close>).
\<close>

definition commitTransaction :: "env \<Rightarrow> session \<Rightarrow> session + session" where
  "commitTransaction e s =
     (if OpCommit \<in> fails e then Inl (s\<lparr>txn := Committed\<rparr>) else Inr (s\<lparr>txn := Committed\<rparr>))"

text \<open>
  What a run of the handler leaves behind: the committed contents of the store, the HTTP
  response (\<open>None\<close> when the handler throws and sends none), and the session it started
  (\<open>None\<close> when it started none).
\<close>

record outcome =
  db_after :: db
  reply :: "response option"
  session_after :: "session option"

text \<open>
  \<^verbatim>\<open>Math.floor(Math.random() * 10) + 1\<close>: the product is rounded to a double, floored,
  and 1 is added.
\<close>

definition randomPoints :: "env \<Rightarrow> int" where
  "randomPoints e = js_add (floor_double (times_ten (rnd e))) 1"

definition awarded_message :: "int \<Rightarrow> string" where
  "awarded_message p = show_int p @ '' points awarded''"

text \<open>
  The body of the \<^verbatim>\<open>try\<close>. The writes go to the transaction's own view of the store,
  \<open>d1\<close> and \<open>d2\<close>; they become the committed contents only when the commit completes.
  When a call raises, the result is \<open>Inl\<close> of the session as the \<^verbatim>\<open>catch\<close> finds it.
\<close>

definition claim_try :: "env \<Rightarrow> db \<Rightarrow> jsval \<Rightarrow> session \<Rightarrow> session + outcome" where
  "claim_try e d userId s =
     (case findById e d userId of
        Raised \<Rightarrow> Inl s
      | Done None \<Rightarrow>
          (case abortTransaction s of
             Raised \<Rightarrow> Inl s
           | Done s' \<Rightarrow>
               Inr \<lparr>db_after = d,
                    reply = Some \<lparr>status = 404, body = Text ''User not found''\<rparr>,
                    session_after = Some s'\<rparr>)
      | Done (Some u) \<Rightarrow>
          (let u' = u\<lparr>points := js_add (points u) (randomPoints e)\<rparr> in
           case save_user e d u' of
             Raised \<Rightarrow> Inl s
           | Done d1 \<Rightarrow>
               (case save_history e d1 userId (randomPoints e) of
                  Raised \<Rightarrow> Inl s
                | Done d2 \<Rightarrow>
                    (case commitTransaction e s of
                       Inl s' \<Rightarrow> Inl s'
                     | Inr s' \<Rightarrow>
                         Inr \<lparr>db_after = d2,
                              reply = Some \<lparr>status = 200,
                                             body = ClaimOk u' (awarded_message (randomPoints e))\<rparr>,
                              session_after = Some (endSession s')\<rparr>))))"

text \<open>
  The handler: the check of \<^verbatim>\<open>userId\<close>, the \<^verbatim>\<open>try\<close>, and the \<^verbatim>\<open>catch\<close>. When the
  \<^verbatim>\<open>abortTransaction\<close> of the \<^verbatim>\<open>catch\<close> raises, the handler throws: it sends no
  response and does not reach \<^verbatim>\<open>endSession\<close>.
\<close>

definition claim_points :: "env \<Rightarrow> db \<Rightarrow> jsval \<Rightarrow> outcome" where
  "claim_points e d userId =
     (if \<not> truthy userId then
        \<lparr>db_after = d,
         reply = Some \<lparr>status = 400, body = Text ''User ID is required''\<rparr>,
         session_after = None\<rparr>
      else
        (let s = startTransaction startSession in
         case claim_try e d userId s of
           Inr out \<Rightarrow> out
         | Inl s1 \<Rightarrow>
             (case abortTransaction s1 of
                Done s2 \<Rightarrow>
                  \<lparr>db_after = d,
                   reply = Some \<lparr>status = 500, body = Text ''Error claiming points''\<rparr>,
                   session_after = Some (endSession s2)\<rparr>
              | Raised \<Rightarrow>
                  \<lparr>db_after = d, reply = None, session_after = Some s1\<rparr>)))"

section \<open>GET /rankings and GET /latest-claim-history\<close>

text \<open>
  \<^verbatim>\<open>sort({ points: -1 })\<close> orders by the field, largest first. The store leaves the
  order of documents with equal keys open; the model keeps them in collection order.
\<close>

definition get_rankings :: "env \<Rightarrow> db \<Rightarrow> db \<times> response" where
  "get_rankings e d =
     (if OpFind \<in> fails e then (d, \<lparr>status = 500, body = Text ''Error fetching rankings''\<rparr>)
      else (d, \<lparr>status = 200, body = UserList (sort_key (\<lambda>u. - points u) (users d))\<rparr>))"

definition populate :: "user list \<Rightarrow> history \<Rightarrow> history_view" where
  "populate us h =
     \<lparr>hv_id = hid h,
      hv_user = map_option (\<lambda>u. (uid u, name u)) (find_user us (huserId h)),
      hv_points = hpoints h,
      hv_timestamp = htimestamp h\<rparr>"

definition latest_history :: "db \<Rightarrow> history_view list" where
  "latest_history d =
     map (populate (users d)) (take 10 (sort_key (\<lambda>h. - htimestamp h) (histories d)))"

definition get_latest_claim_history :: "env \<Rightarrow> db \<Rightarrow> db \<times> response" where
  "get_latest_claim_history e d =
     (if OpFind \<in> fails e
      then (d, \<lparr>status = 500, body = Text ''Error fetching latest claim history''\<rparr>)
      else (d, \<lparr>status = 200, body = HistoryList (latest_history d)\<rparr>))"

section \<open>Runs of the service\<close>

text \<open>
  The service answers requests one after another, starting from an empty store. A request
  carries the environment it is served in. A handler that throws leaves the store as it
  was.
\<close>

datatype request =
    AddUser env jsval
  | ClaimPoints env jsval
  | GetRankings env
  | GetLatestClaimHistory env

fun serve :: "db \<Rightarrow> request \<Rightarrow> db" where
  "serve d (AddUser e nm) = (case add_user e d nm of Inl _ \<Rightarrow> d | Inr (d', _) \<Rightarrow> d')"
| "serve d (ClaimPoints e v) = db_after (claim_points e d v)"
| "serve d (GetRankings e) = fst (get_rankings e d)"
| "serve d (GetLatestClaimHistory e) = fst (get_latest_claim_history e d)"

definition run :: "request list \<Rightarrow> db" where
  "run rs = foldl serve \<lparr>users = [], histories = []\<rparr> rs"

text \<open>\<^verbatim>\<open>Math.random()\<close> returns a number that is at least 0 and less than 1.\<close>

fun random_ok :: "request \<Rightarrow> bool" where
  "random_ok (ClaimPoints e v) = (rnd e < 0x3FF0000000000000)"
| "random_ok _ = True"

text \<open>
  The sum of the awards that the history holds for a user, and the consistency of a store:
  user ids are unique, every balance is the sum of the awards recorded for its user, and
  every record belongs to a stored user and holds an award between 1 and 10.
\<close>

definition awards_of :: "history list \<Rightarrow> oid \<Rightarrow> int" where
  "awards_of hs i = sum_list (map hpoints (filter (\<lambda>h. huserId h = i) hs))"

definition consistent :: "db \<Rightarrow> bool" where
  "consistent d \<longleftrightarrow>
     distinct (map uid (users d))
     \<and> (\<forall>u\<in>set (users d). points u = awards_of (histories d) (uid u))
     \<and> (\<forall>h\<in>set (histories d).
          huserId h \<in> uid ` set (users d) \<and> 1 \<le> hpoints h \<and> hpoints h \<le> 10)"

text \<open>
  The user that the \<^verbatim>\<open>userId\<close> of a request identifies: the stored user whose
  \<^verbatim>\<open>_id\<close> is the ObjectId that the value casts to.
\<close>

definition claimant :: "env \<Rightarrow> db \<Rightarrow> jsval \<Rightarrow> user option" where
  "claimant e d v = (case castObjectId e v of None \<Rightarrow> None | Some i \<Rightarrow> find_user (users d) i)"

section \<open>Sample requests\<close>

text \<open>
  An instance of the ObjectId cast for the examples: a string of 24 hexadecimal digits is
  the ObjectId it spells, and every other value is refused.
\<close>

definition hex_value :: "16 word \<Rightarrow> nat option" where
  "hex_value c =
     (if 0x30 \<le> c \<and> c \<le> 0x39 then Some (unat c - 48)
      else if 0x61 \<le> c \<and> c \<le> 0x66 then Some (unat c - 87)
      else if 0x41 \<le> c \<and> c \<le> 0x46 then Some (unat c - 55)
      else None)"

definition hex_cast :: "jsval \<Rightarrow> oid option" where
  "hex_cast v =
     (case v of
        JStr s \<Rightarrow>
          if length s = 24 \<and> list_all (\<lambda>c. hex_value c \<noteq> None) s
          then Some (foldl (\<lambda>a c. 16 * a + the (hex_value c)) 0 s)
          else None
      | _ \<Rightarrow> None)"

text \<open>The strings \<^verbatim>\<open>"00000000000000000000000a"\<close> and \<^verbatim>\<open>"00000000000000000000000f"\<close>.\<close>

definition id_a :: jsstring where
  "id_a = [0x30, 0x30, 0x30, 0x30, 0x30, 0x30, 0x30, 0x30, 0x30, 0x30, 0x30, 0x30,
           0x30, 0x30, 0x30, 0x30, 0x30, 0x30, 0x30, 0x30, 0x30, 0x30, 0x30, 0x61]"

definition id_f :: jsstring where
  "id_f = [0x30, 0x30, 0x30, 0x30, 0x30, 0x30, 0x30, 0x30, 0x30, 0x30, 0x30, 0x30,
           0x30, 0x30, 0x30, 0x30, 0x30, 0x30, 0x30, 0x30, 0x30, 0x30, 0x30, 0x66]"

text \<open>The strings \<^verbatim>\<open>"Ada"\<close> and \<^verbatim>\<open>"abc"\<close>.\<close>

definition ada :: jsstring where
  "ada = [0x41, 0x64, 0x61]"

definition abc :: jsstring where
  "abc = [0x61, 0x62, 0x63]"

text \<open>
  An environment without storage faults: the random number, the clock and the generated
  ObjectId are given. The random numbers of the examples are 0.37
  (\<open>0x3FD7AE147AE147AE\<close>), 0.99 (\<open>0x3FEFAE147AE147AE\<close>) and 0.8999999999999999
  (\<open>0x3FECCCCCCCCCCCCC\<close>), whose product with 10 rounds to the double 9.
\<close>

definition sample_env :: "64 word \<Rightarrow> int \<Rightarrow> oid \<Rightarrow> env" where
  "sample_env r t i = \<lparr>rnd = r, now = t, new_id = i, castObjectId = hex_cast, fails = {}\<rparr>"

text \<open>A store with the user Ada, who holds 5 points from one claim.\<close>

definition ada_db :: db where
  "ada_db =
     \<lparr>users = [\<lparr>uid = 10, name = ada, points = 5\<rparr>],
      histories = [\<lparr>hid = 20, huserId = 10, hpoints = 5, htimestamp = 1000\<rparr>]\<rparr>"

text \<open>
  Three requests served from the empty store: register \<^verbatim>\<open>" Ada "\<close>, then two claims by
  her, with random numbers 0.37 and 0.8999999999999999.
\<close>

definition sample_requests :: "request list" where
  "sample_requests =
     [AddUser (sample_env 0 1000 10) (JStr [0x20, 0x41, 0x64, 0x61, 0x20]),
      ClaimPoints (sample_env 0x3FD7AE147AE147AE 2000 21) (JStr id_a),
      ClaimPoints (sample_env 0x3FECCCCCCCCCCCCC 3000 22) (JStr id_a)]"

text \<open>A store of three users with 5, 1 and 9 points.\<close>

definition three_users :: db where
  "three_users =
     \<lparr>users = [\<lparr>uid = 10, name = ada, points = 5\<rparr>,
               \<lparr>uid = 11, name = [0x42, 0x6F, 0x62], points = 1\<rparr>,
               \<lparr>uid = 12, name = [0x43, 0x79], points = 9\<rparr>],
      histories = []\<rparr>"

text \<open>
  A store whose history holds three claims, made at the times 1000, 2000 and 3000, the
  second by a user that the store does not hold.
\<close>

definition three_claims :: db where
  "three_claims =
     \<lparr>users = [\<lparr>uid = 10, name = ada, points = 9\<rparr>],
      histories = [\<lparr>hid = 20, huserId = 10, hpoints = 2, htimestamp = 1000\<rparr>,
                   \<lparr>hid = 21, huserId = 11, hpoints = 3, htimestamp = 2000\<rparr>,
                   \<lparr>hid = 22, huserId = 10, hpoints = 7, htimestamp = 3000\<rparr>]\<rparr>"

section \<open>Properties\<close>

subsection \<open>Lookup and update by id\<close>

lemma find_user_Nil [simp]: "find_user [] i = None"
  by (simp add: find_user_def)

lemma find_user_Cons [simp]:
  "find_user (u # us) i = (if uid u = i then Some u else find_user us i)"
  by (simp add: find_user_def)

lemma find_user_uid: "find_user us i = Some u \<Longrightarrow> uid u = i"
  by (induction us) (auto split: if_splits)

lemma find_user_mem: "find_user us i = Some u \<Longrightarrow> u \<in> set us"
  by (induction us) (auto split: if_splits)

lemma find_user_distinct:
  "distinct (map uid us) \<Longrightarrow> u \<in> set us \<Longrightarrow> find_user us (uid u) = Some u"
  by (induction us) auto

lemma find_user_append:
  "find_user (us @ vs) i = (case find_user us i of Some u \<Rightarrow> Some u | None \<Rightarrow> find_user vs i)"
  by (induction us) auto

lemma find_user_update_same:
  "find_user us i = Some u \<Longrightarrow> uid (f u) = i \<Longrightarrow> find_user (update_user i f us) i = Some (f u)"
  by (induction us) (auto split: if_splits)

lemma find_user_update_other:
  "j \<noteq> i \<Longrightarrow> (\<And>v. uid (f v) = uid v) \<Longrightarrow> find_user (update_user i f us) j = find_user us j"
  by (induction us) auto

lemma map_uid_update_user:
  "(\<And>v. uid (f v) = uid v) \<Longrightarrow> map uid (update_user i f us) = map uid us"
  by (induction us) auto

lemma set_update_user:
  "distinct (map uid us) \<Longrightarrow> find_user us i = Some u \<Longrightarrow>
   set (update_user i f us) = insert (f u) (set us - {u})"
  by (induction us) (auto split: if_splits dest: find_user_uid find_user_mem)

subsection \<open>Rounding\<close>

lemma excess_bits_small: "n < 2 ^ 53 \<Longrightarrow> excess_bits n = 0"
  by (simp add: excess_bits.simps)

lemma excess_bits_le: "n < 2 ^ 53 * 2 ^ k \<Longrightarrow> excess_bits n \<le> k"
proof (induction k arbitrary: n)
  case 0
  then show ?case by (simp add: excess_bits_small)
next
  case (Suc k)
  show ?case
  proof (cases "n < 2 ^ 53")
    case True
    then show ?thesis by (simp add: excess_bits_small)
  next
    case False
    from Suc.prems have "n div 2 < 2 ^ 53 * 2 ^ k" by simp
    then have "excess_bits (n div 2) \<le> k" by (rule Suc.IH)
    with False show ?thesis by (subst excess_bits.simps) simp
  qed
qed

lemma round_even_0: "round_even n 0 = n"
  by (simp add: round_even_def)

text \<open>Integers up to \<open>2 ^ 53\<close> in magnitude are doubles, and a sum in that range is exact.\<close>

lemma round_nat_exact: "n \<le> 2 ^ 53 \<Longrightarrow> round_nat n = n"
proof (cases "n < 2 ^ 53")
  case True
  then show ?thesis by (simp add: round_nat_def excess_bits_small round_even_0)
next
  case False
  assume "n \<le> 2 ^ 53"
  with False have n: "n = 2 ^ 53" by simp
  have "excess_bits 9007199254740992 = 1"
    by (subst excess_bits.simps) (simp add: excess_bits_small)
  then show ?thesis by (simp add: n round_nat_def round_even_def)
qed

lemma round_int_exact: "\<bar>k\<bar> \<le> 2 ^ 53 \<Longrightarrow> round_int k = k"
  by (simp add: round_int_def round_nat_exact)

lemma js_add_exact: "\<bar>a + b\<bar> \<le> 2 ^ 53 \<Longrightarrow> js_add a b = a + b"
  by (simp add: js_add_def round_int_exact)

text \<open>From \<open>2 ^ 53\<close> on the sum rounds: an award of 1 is absorbed.\<close>

lemma js_add_absorbs: "js_add 9007199254740992 1 = 9007199254740992"
  by (simp add: js_add_def round_int_def round_nat_def excess_bits.simps round_even_def)

text \<open>A double below 1 has a biased exponent of at most 1022, so its exponent is at most -53.\<close>

lemma biased_exponent_below_one:
  assumes "w < 0x3FF0000000000000"
  shows "biased_exponent w \<le> 1022"
proof -
  from assms have "unat w < 0x3FF0000000000000"
    by (simp add: word_less_nat_alt)
  then have "unat w div 2 ^ 52 < 1023" by simp
  then show ?thesis by (simp add: biased_exponent_def)
qed

lemma significand_less: "significand w < 2 ^ 53"
proof -
  have "fraction w < 2 ^ 52" by (simp add: fraction_def)
  then show ?thesis by (simp add: significand_def)
qed

lemma exponent_below_one:
  "w < 0x3FF0000000000000 \<Longrightarrow> exponent w \<le> - 53"
  using biased_exponent_below_one [of w] by (simp add: exponent_def)

lemma round_even_below_ten:
  assumes "n + 10 \<le> 10 * 2 ^ 53" and "s \<le> 4"
  shows "round_even n s < 10 * 2 ^ (53 - s)"
proof -
  define q where "q = n div 2 ^ s"
  define r where "r = n mod 2 ^ s"
  have n: "n = q * 2 ^ s + r"
    unfolding q_def r_def by (rule div_mult_mod_eq [symmetric])
  have up: "round_even n s \<le> (if 2 ^ s \<le> 2 * r then q + 1 else q)"
    by (auto simp: round_even_def Let_def q_def r_def)
  from assms(2) consider "s = 0" | "s = 1" | "s = 2" | "s = 3" | "s = 4" by linarith
  then show ?thesis
  proof cases
    case 1 with assms(1) n up show ?thesis by (simp split: if_splits)
  next
    case 2 with assms(1) n up show ?thesis by (simp split: if_splits)
  next
    case 3 with assms(1) n up show ?thesis by (simp split: if_splits)
  next
    case 4 with assms(1) n up show ?thesis by (simp split: if_splits)
  next
    case 5 with assms(1) n up show ?thesis by (simp split: if_splits)
  qed
qed

text \<open>The rounded product of a double below 1 and 10 stays below 10.\<close>

lemma floor_times_ten:
  assumes "w < 0x3FF0000000000000"
  shows "0 \<le> floor_double (times_ten w) \<and> floor_double (times_ten w) \<le> 9"
proof -
  let ?n = "10 * significand w"
  let ?s = "excess_bits ?n"
  let ?q = "round_even ?n ?s"
  have sig: "significand w < 2 ^ 53" by (rule significand_less)
  then have "?n < 2 ^ 53 * 2 ^ 4" by simp
  then have s4: "?s \<le> 4" by (rule excess_bits_le)
  have "?n + 10 \<le> 10 * 2 ^ 53" using sig by simp
  then have q: "?q < 10 * 2 ^ (53 - ?s)" using s4 by (rule round_even_below_ten)
  have e: "exponent w \<le> - 53" using assms by (rule exponent_below_one)
  let ?a = "nat (- (exponent w + int ?s))"
  have neg: "\<not> 0 \<le> exponent w + int ?s" using e s4 by simp
  have "53 - ?s \<le> ?a" using e s4 by simp
  then have "(2::nat) ^ (53 - ?s) \<le> 2 ^ ?a" by (simp add: power_increasing)
  then have "(10::nat) * 2 ^ (53 - ?s) \<le> 10 * 2 ^ ?a" by simp
  with q have "?q < 10 * 2 ^ ?a" by (rule less_le_trans)
  then have "?q div 2 ^ ?a < 10" by (simp add: less_mult_imp_div_less)
  then have "int ?q div 2 ^ ?a < 10"
    by (metis of_nat_less_iff of_nat_numeral zdiv_int of_nat_power)
  moreover have "0 \<le> int ?q div 2 ^ ?a" by (simp add: pos_imp_zdiv_nonneg_iff)
  ultimately show ?thesis using neg by (simp add: times_ten_def Let_def)
qed

lemma randomPoints_range:
  assumes "rnd e < 0x3FF0000000000000"
  shows "1 \<le> randomPoints e \<and> randomPoints e \<le> 10"
proof -
  from floor_times_ten [OF assms]
  have f: "0 \<le> floor_double (times_ten (rnd e))" "floor_double (times_ten (rnd e)) \<le> 9"
    by simp_all
  then have "js_add (floor_double (times_ten (rnd e))) 1 = floor_double (times_ten (rnd e)) + 1"
    by (intro js_add_exact) simp
  with f show ?thesis by (simp add: randomPoints_def)
qed

subsection \<open>The exits of the claim handler\<close>

lemma claim_points_200:
  assumes "map_option status (reply (claim_points e d userId)) = Some 200"
  shows "\<exists>i u. truthy userId \<and> castObjectId e userId = Some i \<and> find_user (users d) i = Some u
     \<and> new_id e \<notin> hid ` set (histories d)
     \<and> claim_points e d userId =
        \<lparr>db_after =
           \<lparr>users = update_user i (\<lambda>v. v\<lparr>points := js_add (points u) (randomPoints e)\<rparr>) (users d),
            histories = histories d @
              [\<lparr>hid = new_id e, huserId = i, hpoints = randomPoints e, htimestamp = now e\<rparr>]\<rparr>,
         reply = Some \<lparr>status = 200,
                        body = ClaimOk (u\<lparr>points := js_add (points u) (randomPoints e)\<rparr>)
                                 (awarded_message (randomPoints e))\<rparr>,
         session_after = Some \<lparr>txn = Committed, ended = True\<rparr>\<rparr>"
  using assms
  by (auto simp: claim_points_def claim_try_def findById_def save_user_def save_history_def
      commitTransaction_def Let_def startSession_def startTransaction_def endSession_def
      abortTransaction_def
      dest: find_user_uid
      split: if_splits attempt.splits option.splits sum.splits)

lemma claim_points_not_200:
  "map_option status (reply (claim_points e d userId)) \<noteq> Some 200 \<Longrightarrow>
   db_after (claim_points e d userId) = d"
  by (auto simp: claim_points_def claim_try_def commitTransaction_def Let_def
      split: if_splits attempt.splits option.splits sum.splits)

text \<open>
  The state of the session at each exit of the claim handler. Without a response the
  handler has thrown in its \<^verbatim>\<open>catch\<close>, after a commit that failed.
\<close>

lemma claim_points_session:
  "session_after (claim_points e d v) =
     (case reply (claim_points e d v) of
        None \<Rightarrow> Some \<lparr>txn = Committed, ended = False\<rparr>
      | Some r \<Rightarrow>
          if status r = 400 then None
          else if status r = 200 then Some \<lparr>txn = Committed, ended = True\<rparr>
          else if status r = 404 then Some \<lparr>txn = Aborted, ended = False\<rparr>
          else Some \<lparr>txn = Aborted, ended = True\<rparr>)"
  by (auto simp: claim_points_def claim_try_def commitTransaction_def Let_def startSession_def
      startTransaction_def abortTransaction_def endSession_def
      split: attempt.splits option.splits sum.splits)

subsection \<open>The sample data\<close>

lemma hex_value_samples:
  "hex_value 0x30 = Some 0" "hex_value 0x61 = Some 10" "hex_value 0x66 = Some 15"
  by (simp_all add: hex_value_def)

lemma hex_cast_id_a: "hex_cast (JStr id_a) = Some 10"
  by (simp add: hex_cast_def id_a_def hex_value_samples)

lemma hex_cast_id_f: "hex_cast (JStr id_f) = Some 15"
  by (simp add: hex_cast_def id_f_def hex_value_samples)

lemma hex_cast_abc: "hex_cast (JStr abc) = None"
  by (simp add: hex_cast_def abc_def)

lemma ids_nonempty: "id_a \<noteq> []" "id_f \<noteq> []" "abc \<noteq> []"
  by (simp_all add: id_a_def id_f_def abc_def)

text \<open>
  The award for the random number 0.37 is 4. The award for 0.8999999999999999 is 10: the
  exact product lies halfway between two doubles and rounds to 9.
\<close>

lemma decode_samples:
  "significand 0x3FD7AE147AE147AE = 6665327448508334" "exponent 0x3FD7AE147AE147AE = - 54"
  "significand 0x3FECCCCCCCCCCCCC = 8106479329266892" "exponent 0x3FECCCCCCCCCCCCC = - 53"
  by (simp_all add: significand_def exponent_def biased_exponent_def fraction_def)

lemma excess_bits_samples:
  "excess_bits 66653274485083340 = 3" "excess_bits 81064793292668920 = 4"
  by (simp_all add: excess_bits.simps)

lemma randomPoints_samples:
  "randomPoints (sample_env 0x3FD7AE147AE147AE t i) = 4"
  "randomPoints (sample_env 0x3FECCCCCCCCCCCCC t i) = 10"
  by (simp_all add: randomPoints_def sample_env_def times_ten_def decode_samples
      excess_bits_samples round_even_def js_add_exact)

lemma awarded_message_4: "awarded_message 4 = ''4 points awarded''"
  by code_simp

lemma claim_ada_eval:
  "claim_points (sample_env 0x3FD7AE147AE147AE 2000 21) ada_db (JStr id_a) =
     \<lparr>db_after = \<lparr>users = [\<lparr>uid = 10, name = ada, points = 9\<rparr>],
          histories = [\<lparr>hid = 20, huserId = 10, hpoints = 5, htimestamp = 1000\<rparr>,
                       \<lparr>hid = 21, huserId = 10, hpoints = 4, htimestamp = 2000\<rparr>]\<rparr>,
      reply = Some \<lparr>status = 200,
                     body = ClaimOk \<lparr>uid = 10, name = ada, points = 9\<rparr> ''4 points awarded''\<rparr>,
      session_after = Some \<lparr>txn = Committed, ended = True\<rparr>\<rparr>"
proof -
  let ?e = "sample_env 0x3FD7AE147AE147AE 2000 21"
  have p: "randomPoints ?e = 4" by (rule randomPoints_samples)
  have e: "fails ?e = {}" "castObjectId ?e = hex_cast" "new_id ?e = 21" "now ?e = 2000"
    by (simp_all add: sample_env_def)
  show ?thesis
    by (simp add: claim_points_def claim_try_def findById_def save_user_def save_history_def
        commitTransaction_def p e ada_db_def hex_cast_id_a ids_nonempty js_add_exact
        Let_def startSession_def startTransaction_def endSession_def awarded_message_4)
qed

text \<open>The store after the three sample requests.\<close>

lemma run_sample_requests:
  "run sample_requests =
     \<lparr>users = [\<lparr>uid = 10, name = ada, points = 14\<rparr>],
      histories = [\<lparr>hid = 21, huserId = 10, hpoints = 4, htimestamp = 2000\<rparr>,
                   \<lparr>hid = 22, huserId = 10, hpoints = 10, htimestamp = 3000\<rparr>]\<rparr>"
proof -
  have e: "fails (sample_env w t i) = {}" "castObjectId (sample_env w t i) = hex_cast"
    "new_id (sample_env w t i) = i" "now (sample_env w t i) = t" for w t i
    by (simp_all add: sample_env_def)
  show ?thesis
    by (simp add: run_def sample_requests_def add_user_def insert_user_def trim_def
        is_white_space_def ada_def
        claim_points_def claim_try_def findById_def save_user_def save_history_def
        commitTransaction_def e randomPoints_samples hex_cast_id_a ids_nonempty js_add_exact
        Let_def)
qed

lemma trim_padded_ada: "trim [0x20, 0x41, 0x64, 0x61, 0x20] = ada"
  by (simp add: trim_def is_white_space_def ada_def)

text \<open>The view of the three sample claims, latest first.\<close>

lemma latest_three_claims:
  "latest_history three_claims =
     [\<lparr>hv_id = 22, hv_user = Some (10, ada), hv_points = 7, hv_timestamp = 3000\<rparr>,
      \<lparr>hv_id = 21, hv_user = None, hv_points = 3, hv_timestamp = 2000\<rparr>,
      \<lparr>hv_id = 20, hv_user = Some (10, ada), hv_points = 2, hv_timestamp = 1000\<rparr>]"
  by (simp add: latest_history_def three_claims_def populate_def)

subsection \<open>Claiming points\<close>

text \<open>
  Claim C1. When a claim is answered with status 200, the awarded amount lies between 1 and
  10, the user's balance afterwards is the balance before plus that amount, no other user
  changes, and the history grows by exactly one record, for that user and with that same
  amount. The random number is a double below 1, and the claimant's balance is a safe
  integer with room for an award: at most \<open>2 ^ 53 - 10\<close> in magnitude, so that the sum,
  which the source computes in doubles, is exact.
\<close>

theorem claim_points_success:
  assumes "rnd e < 0x3FF0000000000000"
    and "map_option status (reply (claim_points e d userId)) = Some 200"
    and "\<And>u. claimant e d userId = Some u \<Longrightarrow> \<bar>points u\<bar> \<le> 2 ^ 53 - 10"
  shows "\<exists>i u. castObjectId e userId = Some i \<and> find_user (users d) i = Some u
     \<and> 1 \<le> randomPoints e \<and> randomPoints e \<le> 10
     \<and> find_user (users (db_after (claim_points e d userId))) i
         = Some (u\<lparr>points := points u + randomPoints e\<rparr>)
     \<and> (\<forall>j. j \<noteq> i \<longrightarrow>
           find_user (users (db_after (claim_points e d userId))) j = find_user (users d) j)
     \<and> histories (db_after (claim_points e d userId))
         = histories d @ [\<lparr>hid = new_id e, huserId = i, hpoints = randomPoints e,
                            htimestamp = now e\<rparr>]
     \<and> reply (claim_points e d userId)
         = Some \<lparr>status = 200,
                 body = ClaimOk (u\<lparr>points := points u + randomPoints e\<rparr>)
                          (awarded_message (randomPoints e))\<rparr>"
proof -
  from claim_points_200 [OF assms(2)] obtain i u where
    c: "castObjectId e userId = Some i" and fu: "find_user (users d) i = Some u" and
    eq: "claim_points e d userId =
        \<lparr>db_after =
           \<lparr>users = update_user i (\<lambda>v. v\<lparr>points := js_add (points u) (randomPoints e)\<rparr>) (users d),
            histories = histories d @
              [\<lparr>hid = new_id e, huserId = i, hpoints = randomPoints e, htimestamp = now e\<rparr>]\<rparr>,
         reply = Some \<lparr>status = 200,
                        body = ClaimOk (u\<lparr>points := js_add (points u) (randomPoints e)\<rparr>)
                                 (awarded_message (randomPoints e))\<rparr>,
         session_after = Some \<lparr>txn = Committed, ended = True\<rparr>\<rparr>"
    by blast
  have rp: "1 \<le> randomPoints e \<and> randomPoints e \<le> 10"
    using assms(1) by (rule randomPoints_range)
  have "claimant e d userId = Some u" using c fu by (simp add: claimant_def)
  then have "\<bar>points u\<bar> \<le> 2 ^ 53 - 10" by (rule assms(3))
  with rp have "\<bar>points u + randomPoints e\<bar> \<le> 2 ^ 53"
    by (simp add: abs_le_iff; linarith)
  then have add: "js_add (points u) (randomPoints e) = points u + randomPoints e"
    by (rule js_add_exact)
  have uidu: "uid u = i" using fu by (rule find_user_uid)
  have same: "find_user (update_user i (\<lambda>v. v\<lparr>points := points u + randomPoints e\<rparr>) (users d)) i
      = Some (u\<lparr>points := points u + randomPoints e\<rparr>)"
    using fu uidu by (simp add: find_user_update_same)
  have other: "\<forall>j. j \<noteq> i \<longrightarrow>
      find_user (update_user i (\<lambda>v. v\<lparr>points := points u + randomPoints e\<rparr>) (users d)) j
      = find_user (users d) j"
    by (simp add: find_user_update_other)
  show ?thesis
    using c fu rp same other
    by (intro exI [of _ i] exI [of _ u]) (simp add: eq add)
qed

theorem claim_points_success_witness:
  "rnd (sample_env 0x3FD7AE147AE147AE 2000 21) < 0x3FF0000000000000
   \<and> map_option status (reply (claim_points (sample_env 0x3FD7AE147AE147AE 2000 21) ada_db
        (JStr id_a))) = Some 200
   \<and> claimant (sample_env 0x3FD7AE147AE147AE 2000 21) ada_db (JStr id_a)
       = Some \<lparr>uid = 10, name = ada, points = 5\<rparr>
   \<and> randomPoints (sample_env 0x3FD7AE147AE147AE 2000 21) = 4
   \<and> find_user (users (db_after (claim_points (sample_env 0x3FD7AE147AE147AE 2000 21) ada_db
        (JStr id_a)))) 10
       = Some \<lparr>uid = 10, name = ada, points = 9\<rparr>
   \<and> histories (db_after (claim_points (sample_env 0x3FD7AE147AE147AE 2000 21) ada_db
        (JStr id_a)))
       = histories ada_db @ [\<lparr>hid = 21, huserId = 10, hpoints = 4, htimestamp = 2000\<rparr>]"
proof -
  let ?e = "sample_env 0x3FD7AE147AE147AE 2000 21"
  have r: "rnd ?e < 0x3FF0000000000000" by (simp add: sample_env_def)
  have s: "map_option status (reply (claim_points ?e ada_db (JStr id_a))) = Some 200"
    by (simp add: claim_ada_eval)
  have cl: "claimant ?e ada_db (JStr id_a) = Some \<lparr>uid = 10, name = ada, points = 5\<rparr>"
    by (simp add: claimant_def sample_env_def hex_cast_id_a ada_db_def)
  have safe: "\<bar>points u\<bar> \<le> 2 ^ 53 - 10" if "claimant ?e ada_db (JStr id_a) = Some u" for u
    using that cl by auto
  have p: "randomPoints ?e = 4" by (rule randomPoints_samples)
  have u: "find_user (users ada_db) 10 = Some \<lparr>uid = 10, name = ada, points = 5\<rparr>"
    by (simp add: ada_db_def)
  have c: "castObjectId ?e (JStr id_a) = Some 10" by (simp add: sample_env_def hex_cast_id_a)
  have n: "new_id ?e = 21" "now ?e = 2000" by (simp_all add: sample_env_def)
  from claim_points_success [OF r s safe] show ?thesis
    using r s cl p u c n by auto
qed

text \<open>
  Claim C3, as the handler has it. A claim whose \<^verbatim>\<open>userId\<close> is present but identifies no
  stored user aborts the transaction and leaves the store unchanged: no history record is
  created and no balance changes. The answer is 404 when the \<^verbatim>\<open>userId\<close> casts to an
  ObjectId and the lookup completes; it is 500, with the session ended, when the
  \<^verbatim>\<open>userId\<close> does not cast to an ObjectId or the lookup fails.
\<close>

theorem claim_points_unknown_user:
  assumes "truthy userId" and "claimant e d userId = None"
  shows "claim_points e d userId =
     (if OpFind \<notin> fails e \<and> castObjectId e userId \<noteq> None
      then \<lparr>db_after = d,
            reply = Some \<lparr>status = 404, body = Text ''User not found''\<rparr>,
            session_after = Some \<lparr>txn = Aborted, ended = False\<rparr>\<rparr>
      else \<lparr>db_after = d,
            reply = Some \<lparr>status = 500, body = Text ''Error claiming points''\<rparr>,
            session_after = Some \<lparr>txn = Aborted, ended = True\<rparr>\<rparr>)"
  using assms
  by (auto simp: claim_points_def claim_try_def findById_def claimant_def startSession_def
      startTransaction_def abortTransaction_def endSession_def
      split: option.splits)

theorem claim_points_unknown_user_witness:
  "truthy (JStr id_f) \<and> claimant (sample_env 0 2000 21) ada_db (JStr id_f) = None
   \<and> claim_points (sample_env 0 2000 21) ada_db (JStr id_f) =
       \<lparr>db_after = ada_db,
        reply = Some \<lparr>status = 404, body = Text ''User not found''\<rparr>,
        session_after = Some \<lparr>txn = Aborted, ended = False\<rparr>\<rparr>
   \<and> truthy (JStr abc) \<and> claimant (sample_env 0 2000 21) ada_db (JStr abc) = None
   \<and> claim_points (sample_env 0 2000 21) ada_db (JStr abc) =
       \<lparr>db_after = ada_db,
        reply = Some \<lparr>status = 500, body = Text ''Error claiming points''\<rparr>,
        session_after = Some \<lparr>txn = Aborted, ended = True\<rparr>\<rparr>"
proof -
  let ?e = "sample_env 0 2000 21"
  have e: "fails ?e = {}" "castObjectId ?e = hex_cast" by (simp_all add: sample_env_def)
  have a: "truthy (JStr id_f)" "truthy (JStr abc)" by (simp_all add: ids_nonempty)
  have f: "claimant ?e ada_db (JStr id_f) = None"
    by (simp add: claimant_def e hex_cast_id_f ada_db_def)
  have b: "claimant ?e ada_db (JStr abc) = None"
    by (simp add: claimant_def e hex_cast_abc)
  from claim_points_unknown_user [OF a(1) f] claim_points_unknown_user [OF a(2) b]
  show ?thesis using a f b by (simp add: e hex_cast_id_f hex_cast_abc)
qed

text \<open>
  The claim as it was stated fails for a \<^verbatim>\<open>userId\<close> that is no ObjectId: the string
  \<^verbatim>\<open>"abc"\<close> identifies no user, and the answer is 500, not 404.
\<close>

theorem claim_points_malformed_id_not_404:
  "truthy (JStr abc) \<and> claimant (sample_env 0 2000 21) ada_db (JStr abc) = None
   \<and> reply (claim_points (sample_env 0 2000 21) ada_db (JStr abc))
       = Some \<lparr>status = 500, body = Text ''Error claiming points''\<rparr>
   \<and> map_option status (reply (claim_points (sample_env 0 2000 21) ada_db (JStr abc)))
       \<noteq> Some 404"
  by (simp add: claim_points_def claim_try_def findById_def claimant_def sample_env_def
      hex_cast_abc ids_nonempty startSession_def startTransaction_def abortTransaction_def
      endSession_def)

text \<open>
  Claim C5. The claim says that every exit after the transaction was opened leaves it
  committed or aborted and the session ended. The exit for an unknown user aborts the
  transaction but returns without \<^verbatim>\<open>endSession\<close>, which the success exit and the
  \<^verbatim>\<open>catch\<close> exit both call: for the id \<^verbatim>\<open>00000000000000000000000f\<close>, which no user
  of the sample store has, the session is still open when the handler has answered 404.
\<close>

theorem claim_points_not_found_leaves_session_open:
  "reply (claim_points (sample_env 0x3FD7AE147AE147AE 2000 21) ada_db (JStr id_f))
     = Some \<lparr>status = 404, body = Text ''User not found''\<rparr>
   \<and> session_after (claim_points (sample_env 0x3FD7AE147AE147AE 2000 21) ada_db (JStr id_f))
     = Some \<lparr>txn = Aborted, ended = False\<rparr>"
  by (simp add: claim_points_def claim_try_def findById_def sample_env_def ada_db_def
      hex_cast_id_f ids_nonempty startSession_def startTransaction_def abortTransaction_def)

text \<open>
  Claim C6. When the \<^verbatim>\<open>userId\<close> of a claim is missing or empty (or any other falsy
  value), the answer is 400, the store is unchanged and no session or transaction is
  started.
\<close>

theorem claim_points_missing_userId:
  assumes "\<not> truthy userId"
  shows "claim_points e d userId =
     \<lparr>db_after = d,
      reply = Some \<lparr>status = 400, body = Text ''User ID is required''\<rparr>,
      session_after = None\<rparr>"
  using assms by (simp add: claim_points_def)

theorem claim_points_missing_userId_witness:
  "\<not> truthy JUndefined \<and> \<not> truthy (JStr [])
   \<and> claim_points (sample_env 0x3FD7AE147AE147AE 2000 21) ada_db JUndefined =
       \<lparr>db_after = ada_db,
        reply = Some \<lparr>status = 400, body = Text ''User ID is required''\<rparr>,
        session_after = None\<rparr>
   \<and> claim_points (sample_env 0x3FD7AE147AE147AE 2000 21) ada_db (JStr []) =
       \<lparr>db_after = ada_db,
        reply = Some \<lparr>status = 400, body = Text ''User ID is required''\<rparr>,
        session_after = None\<rparr>"
  using claim_points_missing_userId [of JUndefined "sample_env 0x3FD7AE147AE147AE 2000 21" ada_db]
    claim_points_missing_userId [of "JStr []" "sample_env 0x3FD7AE147AE147AE 2000 21" ada_db]
  by simp

subsection \<open>Balances and history\<close>

lemma add_user_cases:
  "add_user e d nm = Inr (d', r) \<Longrightarrow>
     d' = d \<or> (new_id e \<notin> uid ` set (users d) \<and>
               (\<exists>s. d' = d\<lparr>users := users d @ [\<lparr>uid = new_id e, name = s, points = 0\<rparr>]\<rparr>))"
  by (auto simp: add_user_def insert_user_def Let_def split: jsval.splits if_splits attempt.splits)

lemma awards_of_append:
  "awards_of (hs @ [h]) i = awards_of hs i + (if huserId h = i then hpoints h else 0)"
  by (simp add: awards_of_def)

lemma awards_of_unreferenced:
  "i \<notin> huserId ` set hs \<Longrightarrow> awards_of hs i = 0"
proof -
  assume "i \<notin> huserId ` set hs"
  then have "filter (\<lambda>h. huserId h = i) hs = []"
    by (auto simp: filter_empty_conv)
  then show ?thesis by (simp add: awards_of_def)
qed

text \<open>The awards recorded for a user sum to at most 10 for each record of the history.\<close>

lemma awards_of_bounds:
  "\<forall>h\<in>set hs. 1 \<le> hpoints h \<and> hpoints h \<le> 10 \<Longrightarrow>
   0 \<le> awards_of hs i \<and> awards_of hs i \<le> 10 * int (length hs)"
  by (induction hs) (auto simp: awards_of_def)

lemma consistent_add_user:
  assumes "consistent d" "add_user e d nm = Inr (d', r)"
  shows "consistent d'"
proof -
  from add_user_cases [OF assms(2)] show ?thesis
  proof
    assume "d' = d" with assms(1) show ?thesis by simp
  next
    assume "new_id e \<notin> uid ` set (users d) \<and>
      (\<exists>s. d' = d\<lparr>users := users d @ [\<lparr>uid = new_id e, name = s, points = 0\<rparr>]\<rparr>)"
    then obtain s where fresh: "new_id e \<notin> uid ` set (users d)"
      and d': "d' = d\<lparr>users := users d @ [\<lparr>uid = new_id e, name = s, points = 0\<rparr>]\<rparr>"
      by blast
    from assms(1) fresh have "new_id e \<notin> huserId ` set (histories d)"
      by (auto simp: consistent_def)
    then have "awards_of (histories d) (new_id e) = 0"
      by (rule awards_of_unreferenced)
    with assms(1) fresh d' show ?thesis
      by (auto simp: consistent_def)
  qed
qed

text \<open>
  A claim keeps the store consistent while the history is short enough for every balance
  to stay a safe integer.
\<close>

lemma consistent_claim_points:
  assumes "consistent d" and "rnd e < 0x3FF0000000000000"
    and "10 * length (histories d) + 10 \<le> 2 ^ 53"
  shows "consistent (db_after (claim_points e d v))"
proof (cases "map_option status (reply (claim_points e d v)) = Some 200")
  case False
  then show ?thesis using assms(1) by (simp add: claim_points_not_200)
next
  case True
  from claim_points_200 [OF True] obtain i u where
    fu: "find_user (users d) i = Some u" and
    eq0: "db_after (claim_points e d v) =
        \<lparr>users = update_user i (\<lambda>v. v\<lparr>points := js_add (points u) (randomPoints e)\<rparr>) (users d),
         histories = histories d @
           [\<lparr>hid = new_id e, huserId = i, hpoints = randomPoints e, htimestamp = now e\<rparr>]\<rparr>"
    by fastforce
  have rp: "1 \<le> randomPoints e \<and> randomPoints e \<le> 10"
    using assms(2) by (rule randomPoints_range)
  have dist: "distinct (map uid (users d))" using assms(1) by (simp add: consistent_def)
  have uidu: "uid u = i" using fu by (rule find_user_uid)
  have umem: "u \<in> set (users d)" using fu by (rule find_user_mem)
  have "points u = awards_of (histories d) (uid u)"
    using assms(1) umem by (simp add: consistent_def)
  moreover have "0 \<le> awards_of (histories d) (uid u)
      \<and> awards_of (histories d) (uid u) \<le> 10 * int (length (histories d))"
    using assms(1) by (intro awards_of_bounds) (simp add: consistent_def)
  moreover have "10 * int (length (histories d)) + 10 \<le> 2 ^ 53"
    using assms(3) by (simp; linarith)
  ultimately have "\<bar>points u + randomPoints e\<bar> \<le> 2 ^ 53"
    using rp by (simp add: abs_le_iff; linarith)
  then have add: "js_add (points u) (randomPoints e) = points u + randomPoints e"
    by (rule js_add_exact)
  let ?f = "\<lambda>v. v\<lparr>points := points u + randomPoints e\<rparr>"
  let ?h = "\<lparr>hid = new_id e, huserId = i, hpoints = randomPoints e, htimestamp = now e\<rparr>"
  have eq: "db_after (claim_points e d v) =
      \<lparr>users = update_user i ?f (users d), histories = histories d @ [?h]\<rparr>"
    using eq0 by (simp add: add)
  have set_eq: "set (update_user i ?f (users d)) = insert (?f u) (set (users d) - {u})"
    using dist fu by (rule set_update_user)
  have ids: "map uid (update_user i ?f (users d)) = map uid (users d)"
    by (rule map_uid_update_user) simp
  have bal: "\<forall>w\<in>set (update_user i ?f (users d)). points w = awards_of (histories d @ [?h]) (uid w)"
  proof
    fix w assume "w \<in> set (update_user i ?f (users d))"
    then consider "w = ?f u" | "w \<in> set (users d)" "w \<noteq> u" using set_eq by auto
    then show "points w = awards_of (histories d @ [?h]) (uid w)"
    proof cases
      case 1
      then show ?thesis using assms(1) umem uidu by (simp add: awards_of_append consistent_def)
    next
      case 2
      then have "uid w \<noteq> i" using dist umem uidu by (auto simp: distinct_map inj_on_def)
      then show ?thesis using assms(1) 2 by (simp add: awards_of_append consistent_def)
    qed
  qed
  have refs: "\<forall>h\<in>set (histories d @ [?h]).
      huserId h \<in> uid ` set (update_user i ?f (users d)) \<and> 1 \<le> hpoints h \<and> hpoints h \<le> 10"
  proof -
    have "uid ` set (update_user i ?f (users d)) = uid ` set (users d)"
      using ids by (metis set_map)
    moreover have "i \<in> uid ` set (users d)" using umem uidu by auto
    ultimately show ?thesis
      using assms(1) rp by (auto simp: consistent_def)
  qed
  show ?thesis
    unfolding eq consistent_def using dist ids bal refs by simp
qed

lemma consistent_serve:
  "consistent d \<Longrightarrow> random_ok r \<Longrightarrow> 10 * length (histories d) + 10 \<le> 2 ^ 53 \<Longrightarrow>
   consistent (serve d r)"
  by (cases r)
     (auto simp: consistent_claim_points get_rankings_def get_latest_claim_history_def
           intro: consistent_add_user split: sum.splits)

text \<open>A request adds at most one record to the history.\<close>

lemma length_histories_serve:
  "length (histories (serve d r)) \<le> Suc (length (histories d))"
proof (cases r)
  case (AddUser e nm)
  then show ?thesis
    by (auto simp: add_user_def insert_user_def Let_def
        split: sum.splits jsval.splits if_splits attempt.splits)
next
  case (ClaimPoints e v)
  show ?thesis
  proof (cases "map_option status (reply (claim_points e d v)) = Some 200")
    case True
    from claim_points_200 [OF True] show ?thesis using ClaimPoints by fastforce
  next
    case False
    then show ?thesis using ClaimPoints by (simp add: claim_points_not_200)
  qed
next
  case (GetRankings e)
  then show ?thesis by (simp add: get_rankings_def)
next
  case (GetLatestClaimHistory e)
  then show ?thesis by (simp add: get_latest_claim_history_def)
qed

lemma consistent_foldl:
  "consistent d \<Longrightarrow> \<forall>r\<in>set rs. random_ok r \<Longrightarrow>
   10 * (length (histories d) + length rs) \<le> 2 ^ 53 \<Longrightarrow>
   consistent (foldl serve d rs)"
proof (induction rs arbitrary: d)
  case Nil
  then show ?case by simp
next
  case (Cons r rs)
  have c: "consistent (serve d r)"
    using Cons.prems by (intro consistent_serve) simp_all
  have "length (histories (serve d r)) \<le> Suc (length (histories d))"
    by (rule length_histories_serve)
  then have "10 * (length (histories (serve d r)) + length rs) \<le> 2 ^ 53"
    using Cons.prems(3) by simp
  with c Cons.prems(2) have "consistent (foldl serve (serve d r) rs)"
    by (intro Cons.IH) simp_all
  then show ?case by simp
qed

lemma serve_no_record_no_increment:
  assumes "distinct (map uid (users d))" "histories (serve d r) = histories d" "u \<in> set (users d)"
  shows "find_user (users (serve d r)) (uid u) = Some u"
proof (cases r)
  case (AddUser e nm)
  show ?thesis
  proof (cases "add_user e d nm")
    case (Inl a)
    then show ?thesis using AddUser assms by (simp add: find_user_distinct)
  next
    case (Inr p)
    obtain d' r' where p: "p = (d', r')" by (cases p)
    from add_user_cases [OF Inr [unfolded p]] show ?thesis
      using AddUser Inr p assms by (auto simp: find_user_distinct find_user_append)
  qed
next
  case (ClaimPoints e v)
  show ?thesis
  proof (cases "map_option status (reply (claim_points e d v)) = Some 200")
    case True
    from claim_points_200 [OF True] have "histories (db_after (claim_points e d v)) \<noteq> histories d"
      by fastforce
    then show ?thesis using assms ClaimPoints by simp
  next
    case False
    then show ?thesis using assms ClaimPoints by (simp add: claim_points_not_200 find_user_distinct)
  qed
next
  case (GetRankings e)
  then show ?thesis using assms by (simp add: get_rankings_def find_user_distinct)
next
  case (GetLatestClaimHistory e)
  then show ?thesis using assms by (simp add: get_latest_claim_history_def find_user_distinct)
qed

text \<open>
  Claim C2. In every store that the service reaches by serving requests, each user's
  balance is the sum of the awards of the history records that name the user, every record
  names a stored user and holds an award between 1 and 10 (so the balance is at least each
  recorded award); and a request that adds no history record leaves every stored user's
  document, balance included, as it was. The random numbers are doubles below 1, and the
  run is short enough for every balance to stay a safe integer: ten times the number of
  requests is at most \<open>2 ^ 53\<close>.
\<close>

theorem balances_match_history:
  assumes "\<forall>r\<in>set rs. random_ok r" and "10 * length rs \<le> 2 ^ 53"
  shows "consistent (run rs)
     \<and> (\<forall>r. histories (serve (run rs) r) = histories (run rs) \<longrightarrow>
            (\<forall>u\<in>set (users (run rs)). find_user (users (serve (run rs) r)) (uid u) = Some u))"
proof
  have "consistent \<lparr>users = [], histories = []\<rparr>"
    by (simp add: consistent_def)
  then show c: "consistent (run rs)"
    unfolding run_def using assms by (intro consistent_foldl) simp_all
  then have "distinct (map uid (users (run rs)))" by (simp add: consistent_def)
  then show "\<forall>r. histories (serve (run rs) r) = histories (run rs) \<longrightarrow>
            (\<forall>u\<in>set (users (run rs)). find_user (users (serve (run rs) r)) (uid u) = Some u)"
    by (blast intro: serve_no_record_no_increment)
qed

theorem balances_match_history_witness:
  "list_all random_ok sample_requests
   \<and> 10 * length sample_requests \<le> 2 ^ 53
   \<and> consistent (run sample_requests)
   \<and> users (run sample_requests) = [\<lparr>uid = 10, name = ada, points = 14\<rparr>]
   \<and> map hpoints (histories (run sample_requests)) = [4, 10]
   \<and> awards_of (histories (run sample_requests)) 10 = 14"
proof -
  have ok: "\<forall>r\<in>set sample_requests. random_ok r"
    by (simp add: sample_requests_def sample_env_def)
  have len: "10 * length sample_requests \<le> 2 ^ 53"
    by (simp add: sample_requests_def)
  from balances_match_history [OF ok len] show ?thesis
    using ok len by (simp add: run_sample_requests awards_of_def list_all_iff)
qed

subsection \<open>Adding a user\<close>

lemma all_white_space_dropWhile:
  "(\<forall>c\<in>set (dropWhile is_white_space s). is_white_space c) \<longleftrightarrow> (\<forall>c\<in>set s. is_white_space c)"
proof
  assume a: "\<forall>c\<in>set (dropWhile is_white_space s). is_white_space c"
  show "\<forall>c\<in>set s. is_white_space c"
  proof
    fix c assume "c \<in> set s"
    then have "c \<in> set (takeWhile is_white_space s) \<or> c \<in> set (dropWhile is_white_space s)"
      by (metis takeWhile_dropWhile_id set_append Un_iff)
    then show "is_white_space c" using a by (auto dest: set_takeWhileD)
  qed
next
  assume "\<forall>c\<in>set s. is_white_space c"
  then show "\<forall>c\<in>set (dropWhile is_white_space s). is_white_space c"
    by (auto dest: set_dropWhileD)
qed

lemma trim_empty_iff: "trim s = [] \<longleftrightarrow> (\<forall>c\<in>set s. is_white_space c)"
  by (simp add: trim_def all_white_space_dropWhile)

text \<open>
  Claim C7. An add-user request whose name is a string of white space only (the empty
  string included) is answered with 400 and creates no user. A name with some other
  character is answered with 201 and a new user that holds the trimmed name and 0 points,
  when the insert goes through: no storage fault and a fresh \<^verbatim>\<open>_id\<close>.
\<close>

theorem add_user_validation:
  "((\<forall>c\<in>set s. is_white_space c) \<longrightarrow>
      add_user e d (JStr s) = Inr (d, \<lparr>status = 400, body = Text ''Name is required''\<rparr>))
   \<and> ((\<exists>c\<in>set s. \<not> is_white_space c) \<and> OpSaveUser \<notin> fails e
        \<and> new_id e \<notin> uid ` set (users d) \<longrightarrow>
      add_user e d (JStr s) =
        Inr (d\<lparr>users := users d @ [\<lparr>uid = new_id e, name = trim s, points = 0\<rparr>]\<rparr>,
             \<lparr>status = 201, body = UserDoc \<lparr>uid = new_id e, name = trim s, points = 0\<rparr>\<rparr>))"
proof (intro conjI impI)
  assume "\<forall>c\<in>set s. is_white_space c"
  then have "trim s = []" by (simp add: trim_empty_iff)
  then show "add_user e d (JStr s) = Inr (d, \<lparr>status = 400, body = Text ''Name is required''\<rparr>)"
    by (simp add: add_user_def)
next
  assume a: "(\<exists>c\<in>set s. \<not> is_white_space c) \<and> OpSaveUser \<notin> fails e
        \<and> new_id e \<notin> uid ` set (users d)"
  then have "trim s \<noteq> []" by (simp add: trim_empty_iff)
  with a show "add_user e d (JStr s) =
        Inr (d\<lparr>users := users d @ [\<lparr>uid = new_id e, name = trim s, points = 0\<rparr>]\<rparr>,
             \<lparr>status = 201, body = UserDoc \<lparr>uid = new_id e, name = trim s, points = 0\<rparr>\<rparr>)"
    by (simp add: add_user_def insert_user_def Let_def)
qed

theorem add_user_validation_witness:
  "list_all is_white_space [0x20, 0x20]
   \<and> add_user (sample_env 0 1000 13) three_users (JStr [0x20, 0x20])
       = Inr (three_users, \<lparr>status = 400, body = Text ''Name is required''\<rparr>)
   \<and> (\<exists>c\<in>set [0x20, 0x41, 0x64, 0x61, 0x20]. \<not> is_white_space c)
   \<and> OpSaveUser \<notin> fails (sample_env 0 1000 13)
   \<and> new_id (sample_env 0 1000 13) \<notin> uid ` set (users three_users)
   \<and> add_user (sample_env 0 1000 13) three_users (JStr [0x20, 0x41, 0x64, 0x61, 0x20])
       = Inr (three_users\<lparr>users := users three_users @ [\<lparr>uid = 13, name = ada, points = 0\<rparr>]\<rparr>,
              \<lparr>status = 201, body = UserDoc \<lparr>uid = 13, name = ada, points = 0\<rparr>\<rparr>)"
proof -
  let ?e = "sample_env 0 1000 13"
  have a: "\<forall>c\<in>set [0x20, 0x20]. is_white_space c" by (simp add: is_white_space_def)
  have b: "\<exists>c\<in>set [0x20, 0x41, 0x64, 0x61, 0x20]. \<not> is_white_space c"
    by (simp add: is_white_space_def)
  have c: "OpSaveUser \<notin> fails ?e" "new_id ?e \<notin> uid ` set (users three_users)"
    by (simp_all add: sample_env_def three_users_def)
  have n: "new_id ?e = 13" by (simp add: sample_env_def)
  show ?thesis
    using add_user_validation [of "[0x20, 0x20]" ?e three_users]
      add_user_validation [of "[0x20, 0x41, 0x64, 0x61, 0x20]" ?e three_users] a b c
    by (simp add: trim_padded_ada n list_all_iff)
qed

text \<open>
  Claim C10. An add-user request without a \<^verbatim>\<open>name\<close> field throws a TypeError instead of
  answering 400; the handler throws exactly when the name is not a string, and it answers
  400 only for a string name, one of white space only.
\<close>

theorem add_user_without_name:
  "add_user e d JUndefined = Inl TypeError
   \<and> (add_user e d nm = Inl TypeError \<longleftrightarrow> (\<forall>s. nm \<noteq> JStr s))
   \<and> (\<forall>d' r. add_user e d nm = Inr (d', r) \<and> status r = 400 \<longrightarrow>
         (\<exists>s. nm = JStr s \<and> (\<forall>c\<in>set s. is_white_space c)))"
proof (intro conjI allI impI)
  show "add_user e d JUndefined = Inl TypeError" by (simp add: add_user_def)
  show "add_user e d nm = Inl TypeError \<longleftrightarrow> (\<forall>s. nm \<noteq> JStr s)"
    by (cases nm) (auto simp: add_user_def Let_def split: attempt.splits)
  fix d' r assume "add_user e d nm = Inr (d', r) \<and> status r = 400"
  then show "\<exists>s. nm = JStr s \<and> (\<forall>c\<in>set s. is_white_space c)"
    by (cases nm) (auto simp: add_user_def Let_def trim_empty_iff split: attempt.splits if_splits)
qed

theorem add_user_without_name_witness:
  "add_user (sample_env 0 1000 13) three_users JUndefined = Inl TypeError
   \<and> add_user (sample_env 0 1000 13) three_users JNull = Inl TypeError
   \<and> (\<forall>s. JNull \<noteq> JStr s)
   \<and> add_user (sample_env 0 1000 13) three_users (JStr [0x20, 0x20])
       = Inr (three_users, \<lparr>status = 400, body = Text ''Name is required''\<rparr>)
   \<and> (\<exists>s. JStr [0x20, 0x20] = JStr s \<and> (\<forall>c\<in>set s. is_white_space c))"
proof -
  let ?e = "sample_env 0 1000 13"
  have ev: "add_user ?e three_users (JStr [0x20, 0x20])
       = Inr (three_users, \<lparr>status = 400, body = Text ''Name is required''\<rparr>)"
    by (simp add: add_user_def trim_def is_white_space_def)
  from add_user_without_name [of ?e three_users JNull]
    add_user_without_name [of ?e three_users "JStr [0x20, 0x20]"]
  show ?thesis using ev by simp
qed

subsection \<open>The two queries\<close>

lemma sorted_desc_sort_key:
  fixes f :: "'a \<Rightarrow> int"
  shows "sorted_wrt (\<lambda>a b. f b \<le> f a) (sort_key (\<lambda>x. - f x) xs)"
proof -
  have "sorted (map (\<lambda>x. - f x) (sort_key (\<lambda>x. - f x) xs))"
    by (rule sorted_sort_key)
  then show ?thesis by (simp add: sorted_map)
qed

text \<open>
  Claim C8. The rankings query leaves the store as it is and, when its read goes through,
  answers 200 with all users, each once, ordered by points from the largest to the
  smallest; users with 5, 1 and 9 points come back in the order 9, 5, 1.
\<close>

theorem rankings_by_points_descending:
  "fst (get_rankings e d) = d
   \<and> (OpFind \<notin> fails e \<longrightarrow>
        (\<exists>us. snd (get_rankings e d) = \<lparr>status = 200, body = UserList us\<rparr>
            \<and> mset us = mset (users d)
            \<and> sorted_wrt (\<lambda>a b. points b \<le> points a) us))"
  by (simp add: get_rankings_def sorted_desc_sort_key)

theorem rankings_by_points_descending_witness:
  "OpFind \<notin> fails (sample_env 0 1000 13)
   \<and> get_rankings (sample_env 0 1000 13) three_users =
       (three_users,
        \<lparr>status = 200,
         body = UserList [\<lparr>uid = 12, name = [0x43, 0x79], points = 9\<rparr>,
                          \<lparr>uid = 10, name = ada, points = 5\<rparr>,
                          \<lparr>uid = 11, name = [0x42, 0x6F, 0x62], points = 1\<rparr>]\<rparr>)
   \<and> map points (users three_users) = [5, 1, 9]
   \<and> (\<exists>us. snd (get_rankings (sample_env 0 1000 13) three_users)
              = \<lparr>status = 200, body = UserList us\<rparr>
          \<and> mset us = mset (users three_users)
          \<and> sorted_wrt (\<lambda>a b. points b \<le> points a) us)"
proof -
  let ?e = "sample_env 0 1000 13"
  have a: "OpFind \<notin> fails ?e" by (simp add: sample_env_def)
  have ev: "get_rankings ?e three_users =
       (three_users,
        \<lparr>status = 200,
         body = UserList [\<lparr>uid = 12, name = [0x43, 0x79], points = 9\<rparr>,
                          \<lparr>uid = 10, name = ada, points = 5\<rparr>,
                          \<lparr>uid = 11, name = [0x42, 0x6F, 0x62], points = 1\<rparr>]\<rparr>)"
    by (simp add: get_rankings_def sample_env_def three_users_def)
  have p: "map points (users three_users) = [5, 1, 9]" by (simp add: three_users_def)
  from rankings_by_points_descending [of ?e three_users] a
  have "\<exists>us. snd (get_rankings ?e three_users) = \<lparr>status = 200, body = UserList us\<rparr>
          \<and> mset us = mset (users three_users)
          \<and> sorted_wrt (\<lambda>a b. points b \<le> points a) us"
    by blast
  with a ev p show ?thesis by blast
qed

lemma take_drop_sorted_desc:
  fixes f :: "'a \<Rightarrow> int"
  assumes "sorted_wrt (\<lambda>a b. f b \<le> f a) xs"
  shows "\<forall>a\<in>set (take n xs). \<forall>b\<in>set (drop n xs). f b \<le> f a"
proof -
  have "sorted_wrt (\<lambda>a b. f b \<le> f a) (take n xs @ drop n xs)"
    using assms by simp
  then show ?thesis
    unfolding sorted_wrt_append by blast
qed

lemma sorted_wrt_take_desc:
  "sorted_wrt R xs \<Longrightarrow> sorted_wrt R (take n xs)"
  by (metis append_take_drop_id sorted_wrt_append)

text \<open>
  Claim C9. When its read goes through, the recent-history query answers 200 with at most
  10 history records (all of them when there are fewer), ordered by timestamp from the
  latest to the earliest, none of them older than a record it leaves out, and each carrying
  the current name of the user it refers to, whenever the store holds that user.
\<close>

theorem latest_claim_history_recent_first:
  assumes "OpFind \<notin> fails e"
  shows "\<exists>hs rest.
       get_latest_claim_history e d
         = (d, \<lparr>status = 200, body = HistoryList (map (populate (users d)) hs)\<rparr>)
     \<and> length hs = min 10 (length (histories d))
     \<and> mset hs + mset rest = mset (histories d)
     \<and> sorted_wrt (\<lambda>a b. htimestamp b \<le> htimestamp a) hs
     \<and> (\<forall>a\<in>set hs. \<forall>b\<in>set rest. htimestamp b \<le> htimestamp a)
     \<and> (\<forall>h\<in>set hs. \<forall>u. find_user (users d) (huserId h) = Some u \<longrightarrow>
           populate (users d) h
             = \<lparr>hv_id = hid h, hv_user = Some (huserId h, name u), hv_points = hpoints h,
                hv_timestamp = htimestamp h\<rparr>)"
proof -
  let ?s = "sort_key (\<lambda>h. - htimestamp h) (histories d)"
  have srt: "sorted_wrt (\<lambda>a b. htimestamp b \<le> htimestamp a) ?s"
    by (rule sorted_desc_sort_key)
  have 1: "get_latest_claim_history e d
         = (d, \<lparr>status = 200, body = HistoryList (map (populate (users d)) (take 10 ?s))\<rparr>)"
    using assms by (simp add: get_latest_claim_history_def latest_history_def)
  have 2: "length (take 10 ?s) = min 10 (length (histories d))"
    by simp
  have "mset (take 10 ?s) + mset (drop 10 ?s) = mset (take 10 ?s @ drop 10 ?s)"
    by (simp only: mset_append)
  then have 3: "mset (take 10 ?s) + mset (drop 10 ?s) = mset (histories d)"
    by simp
  have 4: "sorted_wrt (\<lambda>a b. htimestamp b \<le> htimestamp a) (take 10 ?s)"
    using srt by (rule sorted_wrt_take_desc)
  have 5: "\<forall>a\<in>set (take 10 ?s). \<forall>b\<in>set (drop 10 ?s). htimestamp b \<le> htimestamp a"
    using srt by (rule take_drop_sorted_desc)
  have 6: "\<forall>h\<in>set (take 10 ?s). \<forall>u. find_user (users d) (huserId h) = Some u \<longrightarrow>
           populate (users d) h
             = \<lparr>hv_id = hid h, hv_user = Some (huserId h, name u), hv_points = hpoints h,
                hv_timestamp = htimestamp h\<rparr>"
    by (auto simp: populate_def dest: find_user_uid)
  from 1 2 3 4 5 6 show ?thesis by blast
qed

theorem latest_claim_history_recent_first_witness:
  "OpFind \<notin> fails (sample_env 0 4000 13)
   \<and> get_latest_claim_history (sample_env 0 4000 13) three_claims =
       (three_claims,
        \<lparr>status = 200,
         body = HistoryList
           [\<lparr>hv_id = 22, hv_user = Some (10, ada), hv_points = 7, hv_timestamp = 3000\<rparr>,
            \<lparr>hv_id = 21, hv_user = None, hv_points = 3, hv_timestamp = 2000\<rparr>,
            \<lparr>hv_id = 20, hv_user = Some (10, ada), hv_points = 2, hv_timestamp = 1000\<rparr>]\<rparr>)
   \<and> (\<exists>hs rest.
         get_latest_claim_history (sample_env 0 4000 13) three_claims
           = (three_claims,
              \<lparr>status = 200, body = HistoryList (map (populate (users three_claims)) hs)\<rparr>)
       \<and> length hs = min 10 (length (histories three_claims))
       \<and> mset hs + mset rest = mset (histories three_claims)
       \<and> sorted_wrt (\<lambda>a b. htimestamp b \<le> htimestamp a) hs
       \<and> (\<forall>a\<in>set hs. \<forall>b\<in>set rest. htimestamp b \<le> htimestamp a)
       \<and> (\<forall>h\<in>set hs. \<forall>u. find_user (users three_claims) (huserId h) = Some u \<longrightarrow>
             populate (users three_claims) h
               = \<lparr>hv_id = hid h, hv_user = Some (huserId h, name u), hv_points = hpoints h,
                  hv_timestamp = htimestamp h\<rparr>))"
proof -
  let ?e = "sample_env 0 4000 13"
  have a: "OpFind \<notin> fails ?e" by (simp add: sample_env_def)
  have ev: "get_latest_claim_history ?e three_claims =
       (three_claims,
        \<lparr>status = 200,
         body = HistoryList
           [\<lparr>hv_id = 22, hv_user = Some (10, ada), hv_points = 7, hv_timestamp = 3000\<rparr>,
            \<lparr>hv_id = 21, hv_user = None, hv_points = 3, hv_timestamp = 2000\<rparr>,
            \<lparr>hv_id = 20, hv_user = Some (10, ada), hv_points = 2, hv_timestamp = 1000\<rparr>]\<rparr>)"
    using a by (simp add: get_latest_claim_history_def latest_three_claims)
  from latest_claim_history_recent_first [OF a, of three_claims] a ev
  show ?thesis by (intro conjI)
qed

end
